theory Spec2Isabelle
  imports Main "HOL-Library.Word"
begin

unbundle bit_operations_syntax

section \<open>An entity-component-system core (include/ECS.h)\<close>

text \<open>
  The header defines five cooperating classes: \<open>ECSUtils\<close>, \<open>EntityManager\<close>,
  \<open>ComponentPool<T>\<close>, \<open>ComponentManager\<close>, \<open>SystemManager\<close> and the facade \<open>ECS\<close>.
  Each class becomes a record of its private fields, each member function a HOL function
  that takes the object and returns the updated object.

  Outcomes that are not a normal return are values of the type \<open>fault\<close>:
  \<^item> \<open>ECSException m\<close>: the header's own exception class, thrown with message \<open>m\<close>;
  \<^item> \<open>StdOutOfRange\<close>: \<open>std::out_of_range\<close>, which \<open>std::bitset::set\<close> and
    \<open>std::bitset::reset\<close> throw for a position beyond the width;
  \<^item> \<open>UndefinedBehaviour\<close>: an unchecked \<open>operator[]\<close> of \<open>std::array\<close> or
    \<open>std::vector\<close> outside the container, or a call through a null pointer. C++ gives
    such an execution no meaning, so the model stops there.
\<close>

datatype fault = ECSException string | StdOutOfRange | UndefinedBehaviour

text \<open>Sequencing: a fault ends the computation, as a throw that nobody catches does.\<close>

definition andThen :: "fault + 'a \<Rightarrow> ('a \<Rightarrow> fault + 'b) \<Rightarrow> fault + 'b" where
  "andThen m f = (case m of Inl e \<Rightarrow> Inl e | Inr x \<Rightarrow> f x)"

subsection \<open>Constants and basic types\<close>

definition MAX_ENTITIES :: int where
  "MAX_ENTITIES = 512"

definition MAX_COMPONENTS :: int where
  "MAX_COMPONENTS = 2"

type_synonym Entity = int

text \<open>\<open>Signature\<close> is \<open>std::bitset<MAX_COMPONENTS>\<close>: a word of two bits.\<close>

type_synonym Signature = "2 word"

text \<open>
  \<open>bitset::set(pos)\<close> and \<open>bitset::reset(pos)\<close> check the position and throw
  \<open>std::out_of_range\<close> when it is not below the width. The callers pass an \<open>int\<close>,
  converted to \<open>size_t\<close>: a negative one becomes a huge position and throws as well.
\<close>

definition bitset_set :: "Signature \<Rightarrow> int \<Rightarrow> fault + Signature" where
  "bitset_set s pos =
     (if 0 \<le> pos \<and> pos < MAX_COMPONENTS then Inr (set_bit (nat pos) s) else Inl StdOutOfRange)"

definition bitset_reset :: "Signature \<Rightarrow> int \<Rightarrow> fault + Signature" where
  "bitset_reset s pos =
     (if 0 \<le> pos \<and> pos < MAX_COMPONENTS then Inr (unset_bit (nat pos) s) else Inl StdOutOfRange)"

subsection \<open>ECSUtils::swapRemove\<close>

text \<open>
  \<open>std::iter_swap(vec.begin() + index, vec.end() - 1)\<close> exchanges the element at
  \<open>index\<close> with the last one; \<open>pop_back\<close> then drops the last slot.
\<close>

definition iter_swap :: "'a list \<Rightarrow> nat \<Rightarrow> nat \<Rightarrow> 'a list" where
  "iter_swap vec i j = vec[i := vec ! j, j := vec ! i]"

definition swapRemove :: "'a list \<Rightarrow> int \<Rightarrow> 'a list" where
  "swapRemove vec index =
     (if length vec = 0 then vec
      else if index < 0 \<or> nat index > length vec - 1 then vec
      else butlast (if length vec > 1 then iter_swap vec (nat index) (length vec - 1) else vec))"

subsection \<open>EntityManager\<close>

text \<open>
  \<open>availableEntities\<close> is the \<open>std::queue\<close>: its front is the head of the list and
  \<open>push\<close> appends. \<open>signatures\<close> is the \<open>std::array<Signature, MAX_ENTITIES>\<close>, whose
  \<open>operator[]\<close> is unchecked.
\<close>

record EntityManager =
  availableEntities :: "Entity list"
  signatures :: "Signature list"

text \<open>The constructor pushes \<open>0, 1, ..., MAX_ENTITIES - 1\<close>; bitsets start with no bit set.\<close>

definition EntityManager_init :: EntityManager where
  "EntityManager_init =
     \<lparr>availableEntities = [0 .. MAX_ENTITIES - 1],
      signatures = replicate (nat MAX_ENTITIES) 0\<rparr>"

definition createNew :: "EntityManager \<Rightarrow> fault + (Entity \<times> EntityManager)" where
  "createNew em =
     (case availableEntities em of
        [] \<Rightarrow> Inl (ECSException ''Out of available entities'')
      | entity # rest \<Rightarrow> Inr (entity, em\<lparr>availableEntities := rest\<rparr>))"

definition in_signatures :: "EntityManager \<Rightarrow> Entity \<Rightarrow> bool" where
  "in_signatures em entity \<longleftrightarrow> 0 \<le> entity \<and> nat entity < length (signatures em)"

definition destroy :: "EntityManager \<Rightarrow> Entity \<Rightarrow> fault + EntityManager" where
  "destroy em entity =
     (if in_signatures em entity
      then Inr (em\<lparr>availableEntities := availableEntities em @ [entity],
                  signatures := (signatures em)[nat entity := 0]\<rparr>)
      else Inl UndefinedBehaviour)"

definition getSignature :: "EntityManager \<Rightarrow> Entity \<Rightarrow> fault + Signature" where
  "getSignature em entity =
     (if in_signatures em entity then Inr (signatures em ! nat entity) else Inl UndefinedBehaviour)"

definition setSignature :: "EntityManager \<Rightarrow> Entity \<Rightarrow> Signature \<Rightarrow> fault + EntityManager" where
  "setSignature em entity signature =
     (if in_signatures em entity
      then Inr (em\<lparr>signatures := (signatures em)[nat entity := signature]\<rparr>)
      else Inl UndefinedBehaviour)"

subsection \<open>ComponentPool\<close>

text \<open>
  \<open>components\<close> is the dense \<open>std::vector<T>\<close>; the two \<open>std::unordered_map\<close>s are
  partial maps. \<open>operator[]\<close> of \<open>std::unordered_map\<close> never throws: for a key that is
  missing it inserts the key with a value-initialised \<open>int\<close>, that is \<open>0\<close>, and
  returns it. \<open>index_or_insert\<close> is that operator used for reading.
\<close>

record 'v ComponentPool =
  components :: "'v list"
  entityToIndex :: "Entity \<rightharpoonup> int"
  indexToEntity :: "int \<rightharpoonup> Entity"

definition ComponentPool_init :: "'v ComponentPool" where
  "ComponentPool_init = \<lparr>components = [], entityToIndex = Map.empty, indexToEntity = Map.empty\<rparr>"

definition index_or_insert :: "(int \<rightharpoonup> int) \<Rightarrow> int \<Rightarrow> int \<times> (int \<rightharpoonup> int)" where
  "index_or_insert m k = (case m k of Some v \<Rightarrow> (v, m) | None \<Rightarrow> (0, m(k \<mapsto> 0)))"

text \<open>\<open>add\<close>: after \<open>push_back\<close> the new size minus one is the old size.\<close>

definition ComponentPool_add :: "'v ComponentPool \<Rightarrow> Entity \<Rightarrow> 'v \<Rightarrow> 'v ComponentPool" where
  "ComponentPool_add p entity component =
     (let comps = components p @ [component] in
      p\<lparr>components := comps,
        entityToIndex := (entityToIndex p)(entity \<mapsto> int (length comps) - 1),
        indexToEntity := (indexToEntity p)(int (length comps) - 1 \<mapsto> entity)\<rparr>)"

text \<open>
  \<open>remove\<close>, statement by statement. \<open>components.size() - 1\<close> is computed in
  \<open>size_t\<close> and stored in an \<open>int\<close>: for an empty vector the result is \<open>-1\<close>.
\<close>

definition ComponentPool_remove :: "'v ComponentPool \<Rightarrow> Entity \<Rightarrow> 'v ComponentPool" where
  "ComponentPool_remove p removeEntity =
     (let (indexOfRemoveEntity, e2i1) = index_or_insert (entityToIndex p) removeEntity;
          indexOfLastComponent = int (length (components p)) - 1;
          (entityOfLastComponent, i2e1) = index_or_insert (indexToEntity p) indexOfLastComponent;
          comps = swapRemove (components p) indexOfRemoveEntity;
          e2i2 = e2i1(entityOfLastComponent \<mapsto> indexOfRemoveEntity);
          i2e2 = i2e1(indexOfRemoveEntity \<mapsto> entityOfLastComponent);
          e2i3 = e2i2(removeEntity := None);
          i2e3 = i2e2(indexOfRemoveEntity := None)
      in \<lparr>components = comps, entityToIndex = e2i3, indexToEntity = i2e3\<rparr>)"

text \<open>
  \<open>get\<close> returns a \<open>T*\<close>. The model's pointer is \<open>Some i\<close> for the address of
  \<open>components[i]\<close> and \<open>None\<close> for \<open>nullptr\<close>. Neither \<open>operator[]\<close> in the
  \<open>try\<close> block throws, so the handler that returns \<open>nullptr\<close> is never entered and
  has no branch here; reading the map may insert a key, so the pool is returned too.
  \<open>components[i]\<close> with \<open>i\<close> outside the vector is undefined.
\<close>

definition ComponentPool_get :: "'v ComponentPool \<Rightarrow> Entity \<Rightarrow> fault + (nat option \<times> 'v ComponentPool)" where
  "ComponentPool_get p entity =
     (let (i, e2i) = index_or_insert (entityToIndex p) entity in
      if 0 \<le> i \<and> nat i < length (components p)
      then Inr (Some (nat i), p\<lparr>entityToIndex := e2i\<rparr>)
      else Inl UndefinedBehaviour)"

subsection \<open>Component type ids\<close>

text \<open>
  \<open>ComponentManager::getComponentTypeId()\<close> holds a function-local \<open>static int id = 0\<close>
  and returns \<open>id++\<close>. Each instantiation of the template
  \<open>getComponentTypeId<T>()\<close> holds its own \<open>static int id\<close>, initialised from the
  counter by the first call and returned by every call. These statics belong to the
  process, not to an \<open>ECS\<close> object, so they are a state of their own. A component type
  \<open>T\<close> is a value of the type variable \<open>'t\<close>; \<open>template_id st T = None\<close> says that
  the static of \<open>getComponentTypeId<T>\<close> is not initialised yet. The counter is an
  \<open>int\<close>; a program instantiates the template finitely often and far less than
  \<open>2^31\<close> times, so it is modelled without a width.
\<close>

record 't Statics =
  counter_id :: int
  template_id :: "'t \<rightharpoonup> int"

definition Statics_init :: "'t Statics" where
  "Statics_init = \<lparr>counter_id = 0, template_id = Map.empty\<rparr>"

definition getComponentTypeId_counter :: "'t Statics \<Rightarrow> int \<times> 't Statics" where
  "getComponentTypeId_counter st = (counter_id st, st\<lparr>counter_id := counter_id st + 1\<rparr>)"

definition getComponentTypeId :: "'t \<Rightarrow> 't Statics \<Rightarrow> int \<times> 't Statics" where
  "getComponentTypeId T st =
     (case template_id st T of
        Some tid \<Rightarrow> (tid, st)
      | None \<Rightarrow>
          (let (tid, st') = getComponentTypeId_counter st
           in (tid, st'\<lparr>template_id := (template_id st')(T \<mapsto> tid)\<rparr>)))"

text \<open>
  A sequence of calls \<open>getComponentTypeId<T1>(); getComponentTypeId<T2>(); ...\<close> with the
  ids it returns, in order.
\<close>

primrec getComponentTypeId_calls :: "'t list \<Rightarrow> 't Statics \<Rightarrow> int list \<times> 't Statics" where
  "getComponentTypeId_calls [] st = ([], st)"
| "getComponentTypeId_calls (T # Ts) st =
     (let (tid, st') = getComponentTypeId T st;
          (tids, st'') = getComponentTypeId_calls Ts st'
      in (tid # tids, st''))"

text \<open>
  What such a sequence, started with fresh statics, maintains: the types queried so far
  are exactly those with an initialised static, the counter counts them, no id is used
  twice, and the first query of a type returns the number of types queried before it.
\<close>

definition ids_inv :: "'t list \<Rightarrow> int list \<Rightarrow> 't Statics \<Rightarrow> bool" where
  "ids_inv Ts tids st \<longleftrightarrow>
     length tids = length Ts \<and>
     dom (template_id st) = set Ts \<and>
     counter_id st = int (card (set Ts)) \<and>
     (\<forall>i<length Ts. template_id st (Ts ! i) = Some (tids ! i)) \<and>
     (\<forall>T tid. template_id st T = Some tid \<longrightarrow> tid < counter_id st) \<and>
     (\<forall>T T' tid. template_id st T = Some tid \<and> template_id st T' = Some tid \<longrightarrow> T = T') \<and>
     (\<forall>i<length Ts. Ts ! i \<notin> set (take i Ts) \<longrightarrow> tids ! i = int (card (set (take i Ts))))"

subsection \<open>ComponentManager\<close>

text \<open>
  \<open>componentPoolArray\<close> is a \<open>std::array<IComponentPool*, MAX_COMPONENTS>\<close>; a slot is
  \<open>None\<close> for \<open>nullptr\<close>. All pools share the value type \<open>'v\<close>. Slot \<open>id\<close> is written
  only by \<open>registerComponent<T>\<close> for the one type \<open>T\<close> whose id is \<open>id\<close>, so the
  \<open>dynamic_cast\<close> in \<open>getComponentPool<T>\<close> succeeds on every non-null slot and
  yields \<open>nullptr\<close> on a null one. The array's \<open>operator[]\<close> is unchecked.
\<close>

record 'v ComponentManager =
  componentPoolArray :: "'v ComponentPool option list"

definition ComponentManager_init :: "'v ComponentManager" where
  "ComponentManager_init = \<lparr>componentPoolArray = replicate (nat MAX_COMPONENTS) None\<rparr>"

definition in_poolArray :: "'v ComponentManager \<Rightarrow> int \<Rightarrow> bool" where
  "in_poolArray cm tid \<longleftrightarrow> 0 \<le> tid \<and> nat tid < length (componentPoolArray cm)"

definition set_pool :: "'v ComponentManager \<Rightarrow> nat \<Rightarrow> 'v ComponentPool \<Rightarrow> 'v ComponentManager" where
  "set_pool cm slot p = cm\<lparr>componentPoolArray := (componentPoolArray cm)[slot := Some p]\<rparr>"

definition ComponentManager_registerComponent ::
  "'t \<Rightarrow> 't Statics \<Rightarrow> 'v ComponentManager \<Rightarrow> fault + ('t Statics \<times> 'v ComponentManager)" where
  "ComponentManager_registerComponent T st cm =
     (let (tid, st') = getComponentTypeId T st in
      if in_poolArray cm tid then Inr (st', set_pool cm (nat tid) ComponentPool_init)
      else Inl UndefinedBehaviour)"

text \<open>
  \<open>getComponentPool<T>\<close> returns a pointer to the pool: \<open>Some (slot, p)\<close> is the pool
  \<open>p\<close> that lives in slot \<open>slot\<close>, \<open>None\<close> is \<open>nullptr\<close>.
\<close>

definition getComponentPool ::
  "'t \<Rightarrow> 't Statics \<Rightarrow> 'v ComponentManager \<Rightarrow>
     fault + ('t Statics \<times> (nat \<times> 'v ComponentPool) option)" where
  "getComponentPool T st cm =
     (let (tid, st') = getComponentTypeId T st in
      if in_poolArray cm tid
      then Inr (st', case componentPoolArray cm ! nat tid of
                       None \<Rightarrow> None
                     | Some p \<Rightarrow> Some (nat tid, p))
      else Inl UndefinedBehaviour)"

definition ComponentManager_add ::
  "'t \<Rightarrow> Entity \<Rightarrow> 'v \<Rightarrow> 't Statics \<Rightarrow> 'v ComponentManager \<Rightarrow>
     fault + ('t Statics \<times> 'v ComponentManager)" where
  "ComponentManager_add T entity component st cm =
     andThen (getComponentPool T st cm) (\<lambda>(st', componentPool).
       case componentPool of
         None \<Rightarrow> Inr (st', cm)
       | Some (slot, p) \<Rightarrow> Inr (st', set_pool cm slot (ComponentPool_add p entity component)))"

definition ComponentManager_remove ::
  "'t \<Rightarrow> Entity \<Rightarrow> 't Statics \<Rightarrow> 'v ComponentManager \<Rightarrow>
     fault + ('t Statics \<times> 'v ComponentManager)" where
  "ComponentManager_remove T entity st cm =
     andThen (getComponentPool T st cm) (\<lambda>(st', componentPool).
       case componentPool of
         None \<Rightarrow> Inr (st', cm)
       | Some (slot, p) \<Rightarrow> Inr (st', set_pool cm slot (ComponentPool_remove p entity)))"

text \<open>\<open>get<T>\<close> has no null check: on an unregistered type it calls through \<open>nullptr\<close>.\<close>

definition ComponentManager_get ::
  "'t \<Rightarrow> Entity \<Rightarrow> 't Statics \<Rightarrow> 'v ComponentManager \<Rightarrow>
     fault + (nat option \<times> 't Statics \<times> 'v ComponentManager)" where
  "ComponentManager_get T entity st cm =
     andThen (getComponentPool T st cm) (\<lambda>(st', componentPool).
       case componentPool of
         None \<Rightarrow> Inl UndefinedBehaviour
       | Some (slot, p) \<Rightarrow>
           andThen (ComponentPool_get p entity) (\<lambda>(ptr, p').
             Inr (ptr, st', set_pool cm slot p')))"

text \<open>\<open>onEntityDestroy\<close> calls \<open>remove(entity)\<close> on every non-null pool of the array.\<close>

definition ComponentManager_onEntityDestroy :: "'v ComponentManager \<Rightarrow> Entity \<Rightarrow> 'v ComponentManager" where
  "ComponentManager_onEntityDestroy cm entity =
     cm\<lparr>componentPoolArray :=
          map (\<lambda>componentPool. case componentPool of
                                 None \<Rightarrow> None
                               | Some p \<Rightarrow> Some (ComponentPool_remove p entity))
              (componentPoolArray cm)\<rparr>"

subsection \<open>SystemManager\<close>

text \<open>
  A system is an \<open>ISystem*\<close> whose \<open>getSignature()\<close> is pure virtual; the manager uses
  nothing else of it when membership changes. The model keeps, for each registered
  system, the signature that call returns. \<open>entitiesVec[i]\<close> is the membership list of
  \<open>systems[i]\<close>.
\<close>

record SystemManager =
  systems :: "Signature list"
  entitiesVec :: "Entity list list"

definition SystemManager_init :: SystemManager where
  "SystemManager_init = \<lparr>systems = [], entitiesVec = []\<rparr>"

definition SystemManager_registerSystem :: "SystemManager \<Rightarrow> Signature \<Rightarrow> SystemManager" where
  "SystemManager_registerSystem sm system =
     sm\<lparr>systems := systems sm @ [system], entitiesVec := entitiesVec sm @ [[]]\<rparr>"

text \<open>
  The body of the loop of \<open>onEntitySignatureChange\<close> for one system: \<open>std::find\<close>
  guards the \<open>push_back\<close>; the other branch passes the entity id to \<open>swapRemove\<close> as
  the index.
\<close>

definition signatureChange_body :: "Signature \<Rightarrow> Entity list \<Rightarrow> Entity \<Rightarrow> Signature \<Rightarrow> Entity list" where
  "signatureChange_body systemSignature members entity signature =
     (if signature AND systemSignature = systemSignature
      then (if entity \<notin> set members then members @ [entity] else members)
      else swapRemove members entity)"

text \<open>
  The loops \<open>for (int i = 0; i < systems.size(); i++)\<close>: the first argument is the part
  of \<open>systems\<close> from position \<open>i\<close> on. \<open>entitiesVec[i]\<close> is an unchecked access.
\<close>

primrec signatureChange_loop ::
  "Signature list \<Rightarrow> nat \<Rightarrow> Entity list list \<Rightarrow> Entity \<Rightarrow> Signature \<Rightarrow> fault + Entity list list" where
  "signatureChange_loop [] i ev entity signature = Inr ev"
| "signatureChange_loop (systemSignature # rest) i ev entity signature =
     (if i < length ev
      then signatureChange_loop rest (Suc i)
             (ev[i := signatureChange_body systemSignature (ev ! i) entity signature])
             entity signature
      else Inl UndefinedBehaviour)"

definition onEntitySignatureChange :: "SystemManager \<Rightarrow> Entity \<Rightarrow> Signature \<Rightarrow> fault + SystemManager" where
  "onEntitySignatureChange sm entity signature =
     andThen (signatureChange_loop (systems sm) 0 (entitiesVec sm) entity signature)
       (\<lambda>ev. Inr (sm\<lparr>entitiesVec := ev\<rparr>))"

primrec entityDestroy_loop ::
  "Signature list \<Rightarrow> nat \<Rightarrow> Entity list list \<Rightarrow> Entity \<Rightarrow> fault + Entity list list" where
  "entityDestroy_loop [] i ev entity = Inr ev"
| "entityDestroy_loop (system # rest) i ev entity =
     (if i < length ev
      then entityDestroy_loop rest (Suc i) (ev[i := swapRemove (ev ! i) entity]) entity
      else Inl UndefinedBehaviour)"

definition SystemManager_onEntityDestroy :: "SystemManager \<Rightarrow> Entity \<Rightarrow> fault + SystemManager" where
  "SystemManager_onEntityDestroy sm entity =
     andThen (entityDestroy_loop (systems sm) 0 (entitiesVec sm) entity)
       (\<lambda>ev. Inr (sm\<lparr>entitiesVec := ev\<rparr>))"

subsection \<open>ECS\<close>

record 'v ECS =
  entityManager :: EntityManager
  componentManager :: "'v ComponentManager"
  systemManager :: SystemManager

definition ECS_init :: "'v ECS" where
  "ECS_init =
     \<lparr>entityManager = EntityManager_init,
      componentManager = ComponentManager_init,
      systemManager = SystemManager_init\<rparr>"

definition newEntity :: "'v ECS \<Rightarrow> fault + (Entity \<times> 'v ECS)" where
  "newEntity ecs =
     andThen (createNew (entityManager ecs)) (\<lambda>(entity, em).
       Inr (entity, ecs\<lparr>entityManager := em\<rparr>))"

definition destroyEntity :: "'v ECS \<Rightarrow> Entity \<Rightarrow> fault + 'v ECS" where
  "destroyEntity ecs entity =
     andThen (destroy (entityManager ecs) entity) (\<lambda>em.
       let cm = ComponentManager_onEntityDestroy (componentManager ecs) entity in
       andThen (SystemManager_onEntityDestroy (systemManager ecs) entity) (\<lambda>sm.
         Inr \<lparr>entityManager = em, componentManager = cm, systemManager = sm\<rparr>))"

definition registerComponent :: "'t \<Rightarrow> 't Statics \<Rightarrow> 'v ECS \<Rightarrow> fault + ('t Statics \<times> 'v ECS)" where
  "registerComponent T st ecs =
     andThen (ComponentManager_registerComponent T st (componentManager ecs)) (\<lambda>(st', cm).
       Inr (st', ecs\<lparr>componentManager := cm\<rparr>))"

definition assignComponent ::
  "'t \<Rightarrow> Entity \<Rightarrow> 'v \<Rightarrow> 't Statics \<Rightarrow> 'v ECS \<Rightarrow> fault + ('t Statics \<times> 'v ECS)" where
  "assignComponent T entity component st ecs =
     andThen (ComponentManager_add T entity component st (componentManager ecs)) (\<lambda>(st1, cm).
     andThen (getSignature (entityManager ecs) entity) (\<lambda>signature0.
       let (tid, st2) = getComponentTypeId T st1 in
       andThen (bitset_set signature0 tid) (\<lambda>signature.
       andThen (setSignature (entityManager ecs) entity signature) (\<lambda>em.
       andThen (onEntitySignatureChange (systemManager ecs) entity signature) (\<lambda>sm.
         Inr (st2, \<lparr>entityManager = em, componentManager = cm, systemManager = sm\<rparr>))))))"

definition removeComponent ::
  "'t \<Rightarrow> Entity \<Rightarrow> 't Statics \<Rightarrow> 'v ECS \<Rightarrow> fault + ('t Statics \<times> 'v ECS)" where
  "removeComponent T entity st ecs =
     andThen (ComponentManager_remove T entity st (componentManager ecs)) (\<lambda>(st1, cm).
     andThen (getSignature (entityManager ecs) entity) (\<lambda>signature0.
       let (tid, st2) = getComponentTypeId T st1 in
       andThen (bitset_reset signature0 tid) (\<lambda>signature.
       andThen (setSignature (entityManager ecs) entity signature) (\<lambda>em.
       andThen (onEntitySignatureChange (systemManager ecs) entity signature) (\<lambda>sm.
         Inr (st2, \<lparr>entityManager = em, componentManager = cm, systemManager = sm\<rparr>))))))"

definition getComponent ::
  "'t \<Rightarrow> Entity \<Rightarrow> 't Statics \<Rightarrow> 'v ECS \<Rightarrow> fault + (nat option \<times> 't Statics \<times> 'v ECS)" where
  "getComponent T entity st ecs =
     andThen (ComponentManager_get T entity st (componentManager ecs)) (\<lambda>(ptr, st', cm).
       Inr (ptr, st', ecs\<lparr>componentManager := cm\<rparr>))"

definition registerSystem :: "'v ECS \<Rightarrow> Signature \<Rightarrow> 'v ECS" where
  "registerSystem ecs system =
     ecs\<lparr>systemManager := SystemManager_registerSystem (systemManager ecs) system\<rparr>"

subsection \<open>Runs of the facade\<close>

text \<open>
  \<open>reach st ecs live\<close>: the statics \<open>st\<close> and the object \<open>ecs\<close> are what a program
  has after some sequence of calls on a freshly constructed \<open>ECS\<close> that returned
  normally. \<open>live\<close> is not program state: it records the ids that \<open>newEntity\<close> has
  issued and \<open>destroyEntity\<close> has not taken back. An entity is destroyed only while it
  is live; a type id may be queried at any time, as the \<open>getSignature\<close> of a system does.
\<close>

inductive reach :: "'t Statics \<Rightarrow> 'v ECS \<Rightarrow> Entity set \<Rightarrow> bool" where
  reach_init: "reach Statics_init ECS_init {}"
| reach_newEntity:
    "reach st ecs live \<Longrightarrow> newEntity ecs = Inr (entity, ecs') \<Longrightarrow> reach st ecs' (insert entity live)"
| reach_destroyEntity:
    "reach st ecs live \<Longrightarrow> entity \<in> live \<Longrightarrow> destroyEntity ecs entity = Inr ecs' \<Longrightarrow>
       reach st ecs' (live - {entity})"
| reach_registerComponent:
    "reach st ecs live \<Longrightarrow> registerComponent T st ecs = Inr (st', ecs') \<Longrightarrow> reach st' ecs' live"
| reach_registerSystem:
    "reach st ecs live \<Longrightarrow> reach st (registerSystem ecs system) live"
| reach_getComponentTypeId:
    "reach st ecs live \<Longrightarrow> getComponentTypeId T st = (tid, st') \<Longrightarrow> reach st' ecs live"
| reach_assignComponent:
    "reach st ecs live \<Longrightarrow> assignComponent T entity component st ecs = Inr (st', ecs') \<Longrightarrow>
       reach st' ecs' live"
| reach_removeComponent:
    "reach st ecs live \<Longrightarrow> removeComponent T entity st ecs = Inr (st', ecs') \<Longrightarrow>
       reach st' ecs' live"
| reach_getComponent:
    "reach st ecs live \<Longrightarrow> getComponent T entity st ecs = Inr (ptr, st', ecs') \<Longrightarrow>
       reach st' ecs' live"

text \<open>What every run preserves: the queue holds exactly the ids that are not live.\<close>

definition ECS_inv :: "'v ECS \<Rightarrow> Entity set \<Rightarrow> bool" where
  "ECS_inv ecs live \<longleftrightarrow>
     distinct (availableEntities (entityManager ecs)) \<and>
     set (availableEntities (entityManager ecs)) = {0 ..< MAX_ENTITIES} - live \<and>
     live \<subseteq> {0 ..< MAX_ENTITIES} \<and>
     length (signatures (entityManager ecs)) = nat MAX_ENTITIES \<and>
     length (componentPoolArray (componentManager ecs)) = nat MAX_COMPONENTS \<and>
     length (systems (systemManager ecs)) = length (entitiesVec (systemManager ecs))"

text \<open>The object after \<open>k\<close> calls of \<open>newEntity\<close> on a fresh \<open>ECS\<close>.\<close>

definition ECS_after_creates :: "nat \<Rightarrow> 'v ECS" where
  "ECS_after_creates k =
     ECS_init\<lparr>entityManager :=
       \<lparr>availableEntities = [int k .. MAX_ENTITIES - 1],
        signatures = replicate (nat MAX_ENTITIES) 0\<rparr>\<rparr>"

text \<open>
  \<open>T\<close> is registered when its id is assigned and its slot of the pool array holds a
  pool. \<open>pointee\<close> reads the component a pointer returned by \<open>getComponent<T>\<close> points to.
\<close>

definition registered :: "'t \<Rightarrow> 't Statics \<Rightarrow> 'v ECS \<Rightarrow> bool" where
  "registered T st ecs \<longleftrightarrow>
     (case template_id st T of
        None \<Rightarrow> False
      | Some tid \<Rightarrow>
          in_poolArray (componentManager ecs) tid \<and>
          componentPoolArray (componentManager ecs) ! nat tid \<noteq> None)"

definition pointee :: "'t \<Rightarrow> 't Statics \<Rightarrow> 'v ECS \<Rightarrow> nat \<Rightarrow> 'v option" where
  "pointee T st ecs i =
     (case template_id st T of
        None \<Rightarrow> None
      | Some tid \<Rightarrow>
          if in_poolArray (componentManager ecs) tid
          then (case componentPoolArray (componentManager ecs) ! nat tid of
                  None \<Rightarrow> None
                | Some p \<Rightarrow> if i < length (components p) then Some (components p ! i) else None)
          else None)"

subsection \<open>The store invariant and two store histories\<close>

text \<open>
  The invariant a component store is meant to keep: the two maps are inverse to each other
  and the positions with an entity are exactly those of the dense vector.
\<close>

definition store_consistent :: "'v ComponentPool \<Rightarrow> bool" where
  "store_consistent p \<longleftrightarrow>
     (\<forall>e i. entityToIndex p e = Some i \<longleftrightarrow> indexToEntity p i = Some e) \<and>
     dom (indexToEntity p) = {0 ..< int (length (components p))}"

text \<open>
  A fresh store after \<open>add(1, 10); add(0, 20); remove(1)\<close>, and one after
  \<open>add(5, 10); add(6, 20); add(7, 30); remove(6); remove(5)\<close>. Every \<open>add\<close> is for an
  entity without an entry and every \<open>remove\<close> for an entity with one.
\<close>

definition pool_two_then_remove_first :: "int ComponentPool" where
  "pool_two_then_remove_first =
     ComponentPool_remove (ComponentPool_add (ComponentPool_add ComponentPool_init 1 10) 0 20) 1"

definition pool_three_then_remove_two :: "int ComponentPool" where
  "pool_three_then_remove_two =
     ComponentPool_remove
       (ComponentPool_remove
          (ComponentPool_add (ComponentPool_add (ComponentPool_add ComponentPool_init 5 10) 6 20) 7 30)
          6)
       5"

section \<open>Properties\<close>

subsection \<open>Basic facts\<close>

lemma andThen_Inr_iff: "andThen m f = Inr y \<longleftrightarrow> (\<exists>x. m = Inr x \<and> f x = Inr y)"
  by (cases m) (simp_all add: andThen_def)

lemma andThen_Inr [simp]: "andThen (Inr x) f = f x"
  by (simp add: andThen_def)

lemma andThen_Inl [simp]: "andThen (Inl e) f = Inl e"
  by (simp add: andThen_def)

lemma signatureChange_loop_length:
  "signatureChange_loop ss i ev entity signature = Inr ev' \<Longrightarrow> length ev' = length ev"
  by (induction ss arbitrary: i ev) (auto split: if_splits)

lemma entityDestroy_loop_length:
  "entityDestroy_loop ss i ev entity = Inr ev' \<Longrightarrow> length ev' = length ev"
  by (induction ss arbitrary: i ev) (auto split: if_splits)

lemma signatureChange_loop_total:
  "i + length ss \<le> length ev \<Longrightarrow> \<exists>ev'. signatureChange_loop ss i ev entity signature = Inr ev'"
  by (induction ss arbitrary: i ev) auto

lemma entityDestroy_loop_total:
  "i + length ss \<le> length ev \<Longrightarrow> \<exists>ev'. entityDestroy_loop ss i ev entity = Inr ev'"
  by (induction ss arbitrary: i ev) auto

lemma onEntitySignatureChange_Inr:
  "onEntitySignatureChange sm entity signature = Inr sm' \<Longrightarrow>
     systems sm' = systems sm \<and> length (entitiesVec sm') = length (entitiesVec sm)"
  by (auto simp: onEntitySignatureChange_def andThen_Inr_iff dest: signatureChange_loop_length)

lemma SystemManager_onEntityDestroy_Inr:
  "SystemManager_onEntityDestroy sm entity = Inr sm' \<Longrightarrow>
     systems sm' = systems sm \<and> length (entitiesVec sm') = length (entitiesVec sm)"
  by (auto simp: SystemManager_onEntityDestroy_def andThen_Inr_iff dest: entityDestroy_loop_length)

lemma ComponentManager_add_length:
  "ComponentManager_add T entity component st cm = Inr (st', cm') \<Longrightarrow>
     length (componentPoolArray cm') = length (componentPoolArray cm)"
  by (auto simp: ComponentManager_add_def andThen_Inr_iff set_pool_def split: option.splits)

lemma ComponentManager_remove_length:
  "ComponentManager_remove T entity st cm = Inr (st', cm') \<Longrightarrow>
     length (componentPoolArray cm') = length (componentPoolArray cm)"
  by (auto simp: ComponentManager_remove_def andThen_Inr_iff set_pool_def split: option.splits)

lemma ComponentManager_get_length:
  "ComponentManager_get T entity st cm = Inr (ptr, st', cm') \<Longrightarrow>
     length (componentPoolArray cm') = length (componentPoolArray cm)"
  by (auto simp: ComponentManager_get_def andThen_Inr_iff set_pool_def split: option.splits)

lemma ComponentManager_registerComponent_length:
  "ComponentManager_registerComponent T st cm = Inr (st', cm') \<Longrightarrow>
     length (componentPoolArray cm') = length (componentPoolArray cm)"
  by (auto simp: ComponentManager_registerComponent_def set_pool_def split: prod.splits if_splits)

lemma ECS_inv_init: "ECS_inv ECS_init {}"
  by (auto simp: ECS_inv_def ECS_init_def EntityManager_init_def ComponentManager_init_def
        SystemManager_init_def MAX_ENTITIES_def)

lemma ECS_inv_newEntity:
  assumes "ECS_inv ecs live" "newEntity ecs = Inr (entity, ecs')"
  shows "ECS_inv ecs' (insert entity live)"
proof -
  from assms(2) have q: "availableEntities (entityManager ecs) = entity # availableEntities (entityManager ecs')"
    and rest: "signatures (entityManager ecs') = signatures (entityManager ecs)"
      "componentManager ecs' = componentManager ecs" "systemManager ecs' = systemManager ecs"
    by (auto simp: newEntity_def createNew_def andThen_Inr_iff split: list.splits)
  from assms(1) q have "entity \<in> {0 ..< MAX_ENTITIES} - live"
    "set (availableEntities (entityManager ecs')) = {0 ..< MAX_ENTITIES} - insert entity live"
    "distinct (availableEntities (entityManager ecs'))"
    unfolding ECS_inv_def by auto
  with assms(1) rest show ?thesis unfolding ECS_inv_def by auto
qed

lemma ECS_inv_destroyEntity:
  assumes "ECS_inv ecs live" "entity \<in> live" "destroyEntity ecs entity = Inr ecs'"
  shows "ECS_inv ecs' (live - {entity})"
proof -
  from assms(3) obtain sm where
    q: "availableEntities (entityManager ecs') = availableEntities (entityManager ecs) @ [entity]"
    and s: "length (signatures (entityManager ecs')) = length (signatures (entityManager ecs))"
    and c: "componentManager ecs' = ComponentManager_onEntityDestroy (componentManager ecs) entity"
    and m: "SystemManager_onEntityDestroy (systemManager ecs) entity = Inr sm" "systemManager ecs' = sm"
    by (auto simp: destroyEntity_def destroy_def andThen_Inr_iff Let_def split: if_splits)
  from c have c': "length (componentPoolArray (componentManager ecs')) = length (componentPoolArray (componentManager ecs))"
    by (simp add: ComponentManager_onEntityDestroy_def)
  from m have m': "systems (systemManager ecs') = systems (systemManager ecs)"
    "length (entitiesVec (systemManager ecs')) = length (entitiesVec (systemManager ecs))"
    by (auto dest: SystemManager_onEntityDestroy_Inr)
  from assms(1,2) q have "distinct (availableEntities (entityManager ecs'))"
    "set (availableEntities (entityManager ecs')) = {0 ..< MAX_ENTITIES} - (live - {entity})"
    unfolding ECS_inv_def by auto
  with assms(1) s c' m' show ?thesis unfolding ECS_inv_def by auto
qed

lemma ECS_inv_frame:
  assumes "ECS_inv ecs live"
    "availableEntities (entityManager ecs') = availableEntities (entityManager ecs)"
    "length (signatures (entityManager ecs')) = length (signatures (entityManager ecs))"
    "length (componentPoolArray (componentManager ecs')) = length (componentPoolArray (componentManager ecs))"
    "length (systems (systemManager ecs')) = length (systems (systemManager ecs))"
    "length (entitiesVec (systemManager ecs')) = length (entitiesVec (systemManager ecs))"
  shows "ECS_inv ecs' live"
  using assms unfolding ECS_inv_def by simp

lemma assignComponent_Inr:
  assumes "assignComponent T entity component st ecs = Inr (st', ecs')"
  obtains st1 cm signature0 signature em sm where
    "ComponentManager_add T entity component st (componentManager ecs) = Inr (st1, cm)"
    "getSignature (entityManager ecs) entity = Inr signature0"
    "bitset_set signature0 (fst (getComponentTypeId T st1)) = Inr signature"
    "st' = snd (getComponentTypeId T st1)"
    "setSignature (entityManager ecs) entity signature = Inr em"
    "onEntitySignatureChange (systemManager ecs) entity signature = Inr sm"
    "ecs' = \<lparr>entityManager = em, componentManager = cm, systemManager = sm\<rparr>"
  using assms
  by (auto simp: assignComponent_def andThen_Inr_iff case_prod_beta Let_def)

lemma removeComponent_Inr:
  assumes "removeComponent T entity st ecs = Inr (st', ecs')"
  obtains st1 cm signature0 signature em sm where
    "ComponentManager_remove T entity st (componentManager ecs) = Inr (st1, cm)"
    "getSignature (entityManager ecs) entity = Inr signature0"
    "bitset_reset signature0 (fst (getComponentTypeId T st1)) = Inr signature"
    "st' = snd (getComponentTypeId T st1)"
    "setSignature (entityManager ecs) entity signature = Inr em"
    "onEntitySignatureChange (systemManager ecs) entity signature = Inr sm"
    "ecs' = \<lparr>entityManager = em, componentManager = cm, systemManager = sm\<rparr>"
  using assms
  by (auto simp: removeComponent_def andThen_Inr_iff case_prod_beta Let_def)

lemma setSignature_Inr:
  "setSignature em entity signature = Inr em' \<Longrightarrow>
     availableEntities em' = availableEntities em \<and>
     length (signatures em') = length (signatures em)"
  by (auto simp: setSignature_def split: if_splits)

lemma assignComponent_frame:
  assumes "assignComponent T entity component st ecs = Inr (st', ecs')"
  shows "availableEntities (entityManager ecs') = availableEntities (entityManager ecs) \<and>
    length (signatures (entityManager ecs')) = length (signatures (entityManager ecs)) \<and>
    length (componentPoolArray (componentManager ecs')) = length (componentPoolArray (componentManager ecs)) \<and>
    length (systems (systemManager ecs')) = length (systems (systemManager ecs)) \<and>
    length (entitiesVec (systemManager ecs')) = length (entitiesVec (systemManager ecs))"
proof -
  from assms obtain st1 cm signature em sm where
    "ComponentManager_add T entity component st (componentManager ecs) = Inr (st1, cm)"
    "setSignature (entityManager ecs) entity signature = Inr em"
    "onEntitySignatureChange (systemManager ecs) entity signature = Inr sm"
    "ecs' = \<lparr>entityManager = em, componentManager = cm, systemManager = sm\<rparr>"
    by (rule assignComponent_Inr)
  then show ?thesis
    using ComponentManager_add_length setSignature_Inr onEntitySignatureChange_Inr by fastforce
qed

lemma removeComponent_frame:
  assumes "removeComponent T entity st ecs = Inr (st', ecs')"
  shows "availableEntities (entityManager ecs') = availableEntities (entityManager ecs) \<and>
    length (signatures (entityManager ecs')) = length (signatures (entityManager ecs)) \<and>
    length (componentPoolArray (componentManager ecs')) = length (componentPoolArray (componentManager ecs)) \<and>
    length (systems (systemManager ecs')) = length (systems (systemManager ecs)) \<and>
    length (entitiesVec (systemManager ecs')) = length (entitiesVec (systemManager ecs))"
proof -
  from assms obtain st1 cm signature em sm where
    "ComponentManager_remove T entity st (componentManager ecs) = Inr (st1, cm)"
    "setSignature (entityManager ecs) entity signature = Inr em"
    "onEntitySignatureChange (systemManager ecs) entity signature = Inr sm"
    "ecs' = \<lparr>entityManager = em, componentManager = cm, systemManager = sm\<rparr>"
    by (rule removeComponent_Inr)
  then show ?thesis
    using ComponentManager_remove_length setSignature_Inr onEntitySignatureChange_Inr by fastforce
qed

lemma getComponent_frame:
  assumes "getComponent T entity st ecs = Inr (ptr, st', ecs')"
  shows "entityManager ecs' = entityManager ecs \<and> systemManager ecs' = systemManager ecs \<and>
    length (componentPoolArray (componentManager ecs')) = length (componentPoolArray (componentManager ecs))"
  using assms
  by (auto simp: getComponent_def andThen_Inr_iff dest: ComponentManager_get_length)

lemma registerComponent_frame:
  assumes "registerComponent T st ecs = Inr (st', ecs')"
  shows "entityManager ecs' = entityManager ecs \<and> systemManager ecs' = systemManager ecs \<and>
    length (componentPoolArray (componentManager ecs')) = length (componentPoolArray (componentManager ecs))"
  using assms
  by (auto simp: registerComponent_def andThen_Inr_iff dest: ComponentManager_registerComponent_length)

lemma reach_ECS_inv: "reach st ecs live \<Longrightarrow> ECS_inv ecs live"
proof (induction rule: reach.induct)
  case reach_init
  show ?case by (rule ECS_inv_init)
next
  case (reach_newEntity st ecs live entity ecs')
  then show ?case by (blast intro: ECS_inv_newEntity)
next
  case (reach_destroyEntity st ecs live entity ecs')
  then show ?case by (blast intro: ECS_inv_destroyEntity)
next
  case (reach_registerComponent st ecs live T st' ecs')
  from registerComponent_frame [OF reach_registerComponent.hyps(2)] reach_registerComponent.IH
  show ?case by (auto intro: ECS_inv_frame)
next
  case (reach_registerSystem st ecs live system)
  then show ?case
    by (auto simp: ECS_inv_def registerSystem_def SystemManager_registerSystem_def)
next
  case (reach_getComponentTypeId st ecs live T tid st')
  then show ?case by simp
next
  case (reach_assignComponent st ecs live T entity component st' ecs')
  from assignComponent_frame [OF reach_assignComponent.hyps(2)] reach_assignComponent.IH
  show ?case by (auto intro: ECS_inv_frame)
next
  case (reach_removeComponent st ecs live T entity st' ecs')
  from removeComponent_frame [OF reach_removeComponent.hyps(2)] reach_removeComponent.IH
  show ?case by (auto intro: ECS_inv_frame)
next
  case (reach_getComponent st ecs live T entity ptr st' ecs')
  from getComponent_frame [OF reach_getComponent.hyps(2)] reach_getComponent.IH
  show ?case by (auto intro: ECS_inv_frame)
qed

lemma ECS_after_creates_0: "ECS_after_creates 0 = ECS_init"
  by (simp add: ECS_after_creates_def ECS_init_def EntityManager_init_def)

lemma newEntity_after_creates:
  assumes "int k < MAX_ENTITIES"
  shows "newEntity (ECS_after_creates k) = Inr (int k, ECS_after_creates (Suc k))"
proof -
  from assms have "[int k .. MAX_ENTITIES - 1] = int k # [int k + 1 .. MAX_ENTITIES - 1]"
    by (simp add: upto_rec1)
  then show ?thesis
    by (simp add: newEntity_def createNew_def ECS_after_creates_def ECS_init_def add.commute)
qed

lemma reach_after_creates:
  "int k \<le> MAX_ENTITIES \<Longrightarrow> reach Statics_init (ECS_after_creates k) {0 ..< int k}"
proof (induction k)
  case 0
  show ?case by (simp add: ECS_after_creates_0 reach_init)
next
  case (Suc k)
  from Suc.prems have lt: "int k < MAX_ENTITIES" by simp
  then have le: "int k \<le> MAX_ENTITIES" by simp
  note r = Suc.IH [OF le]
  have "insert (int k) {0 ..< int k} = {0 ..< int (Suc k)}" by auto
  with reach_newEntity [OF r newEntity_after_creates [OF lt]] show ?case by simp
qed

lemma getComponentTypeId_known:
  "template_id st T = Some tid \<Longrightarrow> getComponentTypeId T st = (tid, st)"
  by (simp add: getComponentTypeId_def)

subsection \<open>swapRemove\<close>

lemma swapRemove_out_of_range:
  "vec = [] \<or> index < 0 \<or> int (length vec) \<le> index \<Longrightarrow> swapRemove vec index = vec"
proof (cases "vec = [] \<or> index < 0")
  case True
  then show ?thesis by (auto simp: swapRemove_def)
next
  case False
  assume "vec = [] \<or> index < 0 \<or> int (length vec) \<le> index"
  with False have le: "int (length vec) \<le> index" and pos: "0 < length vec" by auto
  then have "length vec - 1 < nat index" by linarith
  with pos show ?thesis by (simp add: swapRemove_def)
qed

lemma swapRemove_in_range:
  assumes "0 \<le> index" "index < int (length vec)"
  shows "swapRemove vec index = butlast (vec[nat index := last vec])"
proof (cases "length vec > 1")
  case True
  from assms have ne: "vec \<noteq> []" by auto
  have "butlast (iter_swap vec (nat index) (length vec - 1)) = butlast (vec[nat index := last vec])"
    using ne by (simp add: iter_swap_def butlast_list_update last_conv_nth)
  with True assms show ?thesis by (auto simp: swapRemove_def)
next
  case False
  with assms have "length vec = 1" "nat index = 0" by auto
  then obtain x where "vec = [x]" by (cases vec) auto
  with assms \<open>nat index = 0\<close> show ?thesis by (simp add: swapRemove_def)
qed

text \<open>
  Claim C9. \<open>swapRemove\<close> is defined for every vector and every index. On an empty vector
  or an index outside \<open>[0, size)\<close> it returns the vector as it was. Otherwise the size
  drops by exactly one, the slot at the index now holds the former last element (where
  that slot still exists, that is, when the index was not the last position) and every
  other remaining slot is untouched.
\<close>

theorem swapRemove_total_guarded:
  "(vec = [] \<or> index < 0 \<or> int (length vec) \<le> index \<longrightarrow> swapRemove vec index = vec) \<and>
   (0 \<le> index \<and> index < int (length vec) \<longrightarrow>
      length (swapRemove vec index) = length vec - 1 \<and>
      (\<forall>j. j < length vec - 1 \<longrightarrow>
         swapRemove vec index ! j = (if j = nat index then last vec else vec ! j)))"
proof (intro conjI impI allI)
  assume "vec = [] \<or> index < 0 \<or> int (length vec) \<le> index"
  then show "swapRemove vec index = vec" by (rule swapRemove_out_of_range)
next
  assume "0 \<le> index \<and> index < int (length vec)"
  then show "length (swapRemove vec index) = length vec - 1"
    by (simp add: swapRemove_in_range)
next
  fix j
  assume r: "0 \<le> index \<and> index < int (length vec)" and j: "j < length vec - 1"
  then show "swapRemove vec index ! j = (if j = nat index then last vec else vec ! j)"
    by (simp add: swapRemove_in_range nth_butlast)
qed

theorem swapRemove_total_guarded_witness:
  "swapRemove [10, 20, 30, 40 :: int] 1 = [10, 40, 30] \<and>
   swapRemove [10, 20 :: int] 5 = [10, 20] \<and>
   swapRemove [10, 20 :: int] (- 1) = [10, 20] \<and>
   swapRemove ([] :: int list) 0 = [] \<and>
   swapRemove [7 :: int] 0 = []"
proof -
  have a: "swapRemove [10, 20, 30, 40 :: int] 1 = [10, 40, 30]"
    using swapRemove_total_guarded [of "[10, 20, 30, 40 :: int]" 1]
    by (simp add: swapRemove_def iter_swap_def)
  have b: "swapRemove [10, 20 :: int] 5 = [10, 20]"
    using swapRemove_total_guarded [of "[10, 20 :: int]" 5] by simp
  have c: "swapRemove [10, 20 :: int] (- 1) = [10, 20]"
    using swapRemove_total_guarded [of "[10, 20 :: int]" "- 1"] by simp
  have d: "swapRemove ([] :: int list) 0 = []"
    using swapRemove_total_guarded [of "[] :: int list" 0] by simp
  have e: "swapRemove [7 :: int] 0 = []"
    using swapRemove_total_guarded [of "[7 :: int]" 0] by simp
  from a b c d e show ?thesis by simp
qed

subsection \<open>The entity pool\<close>

text \<open>
  Claim C7. In every state a run can reach, \<open>newEntity\<close> throws the exception
  "Out of available entities" exactly when all \<open>MAX_ENTITIES\<close> ids are live. It
  otherwise returns an id of \<open>[0, MAX_ENTITIES)\<close> that was not live, and has no third
  outcome. Every live id lies in \<open>[0, MAX_ENTITIES)\<close>, and destroying any live entity
  succeeds and makes the next \<open>newEntity\<close> succeed.
\<close>

theorem newEntity_exhausted_iff_all_live:
  assumes "reach st ecs live"
  shows "(newEntity ecs = Inl (ECSException ''Out of available entities'') \<longleftrightarrow>
            live = {0 ..< MAX_ENTITIES}) \<and>
         (newEntity ecs = Inl (ECSException ''Out of available entities'') \<or>
            (\<exists>entity ecs'. newEntity ecs = Inr (entity, ecs') \<and>
               0 \<le> entity \<and> entity < MAX_ENTITIES \<and> entity \<notin> live)) \<and>
         live \<subseteq> {0 ..< MAX_ENTITIES} \<and>
         (\<forall>entity \<in> live. \<exists>ecs'. destroyEntity ecs entity = Inr ecs' \<and>
            (\<exists>entity' ecs''. newEntity ecs' = Inr (entity', ecs'')))"
proof -
  from assms have inv: "ECS_inv ecs live" by (rule reach_ECS_inv)
  let ?q = "availableEntities (entityManager ecs)"
  from inv have q: "set ?q = {0 ..< MAX_ENTITIES} - live" and sub: "live \<subseteq> {0 ..< MAX_ENTITIES}"
    by (simp_all add: ECS_inv_def)
  have empty: "?q = [] \<longleftrightarrow> live = {0 ..< MAX_ENTITIES}"
  proof
    assume "?q = []"
    with q have "{0 ..< MAX_ENTITIES} - live = {}" by simp
    with sub show "live = {0 ..< MAX_ENTITIES}" by blast
  next
    assume "live = {0 ..< MAX_ENTITIES}"
    with q show "?q = []" by simp
  qed
  have fails: "newEntity ecs = Inl (ECSException ''Out of available entities'') \<longleftrightarrow> ?q = []"
    by (cases ?q) (simp_all add: newEntity_def createNew_def)
  have c1: "newEntity ecs = Inl (ECSException ''Out of available entities'') \<longleftrightarrow>
      live = {0 ..< MAX_ENTITIES}"
    using fails empty by simp
  have c2: "newEntity ecs = Inl (ECSException ''Out of available entities'') \<or>
      (\<exists>entity ecs'. newEntity ecs = Inr (entity, ecs') \<and>
         0 \<le> entity \<and> entity < MAX_ENTITIES \<and> entity \<notin> live)"
  proof (cases ?q)
    case Nil
    with fails show ?thesis by simp
  next
    case (Cons entity rest)
    then have "entity \<in> set ?q" by simp
    with q have "0 \<le> entity \<and> entity < MAX_ENTITIES \<and> entity \<notin> live" by auto
    moreover from Cons have "newEntity ecs = Inr (entity, ecs\<lparr>entityManager := entityManager ecs\<lparr>availableEntities := rest\<rparr>\<rparr>)"
      by (simp add: newEntity_def createNew_def)
    ultimately show ?thesis by blast
  qed
  have c4: "\<exists>ecs'. destroyEntity ecs entity = Inr ecs' \<and>
      (\<exists>entity' ecs''. newEntity ecs' = Inr (entity', ecs''))" if "entity \<in> live" for entity
  proof -
    from that sub inv have ins: "in_signatures (entityManager ecs) entity"
      by (auto simp: in_signatures_def ECS_inv_def)
    from inv have "0 + length (systems (systemManager ecs)) \<le> length (entitiesVec (systemManager ecs))"
      by (simp add: ECS_inv_def)
    from entityDestroy_loop_total [OF this] obtain ev
      where ev: "entityDestroy_loop (systems (systemManager ecs)) 0 (entitiesVec (systemManager ecs)) entity = Inr ev"
      by blast
    define ecs' where "ecs' =
      \<lparr>entityManager = (entityManager ecs)\<lparr>availableEntities := ?q @ [entity],
           signatures := (signatures (entityManager ecs))[nat entity := 0]\<rparr>,
        componentManager = ComponentManager_onEntityDestroy (componentManager ecs) entity,
        systemManager = (systemManager ecs)\<lparr>entitiesVec := ev\<rparr>\<rparr>"
    from ins ev have d: "destroyEntity ecs entity = Inr ecs'"
      by (simp add: destroyEntity_def destroy_def SystemManager_onEntityDestroy_def ecs'_def)
    have "availableEntities (entityManager ecs') \<noteq> []" by (simp add: ecs'_def)
    then obtain entity' rest where "availableEntities (entityManager ecs') = entity' # rest"
      by (cases "availableEntities (entityManager ecs')") auto
    then have "newEntity ecs' = Inr (entity', ecs'\<lparr>entityManager := entityManager ecs'\<lparr>availableEntities := rest\<rparr>\<rparr>)"
      by (simp add: newEntity_def createNew_def)
    with d show ?thesis by blast
  qed
  from c1 c2 sub c4 show ?thesis by blast
qed

theorem newEntity_exhausted_iff_all_live_witness:
  "newEntity (ECS_after_creates 512 :: int ECS) = Inl (ECSException ''Out of available entities'') \<and>
   (\<exists>ecs'. destroyEntity (ECS_after_creates 512 :: int ECS) 7 = Inr ecs' \<and>
      (\<exists>entity' ecs''. newEntity ecs' = Inr (entity', ecs''))) \<and>
   (\<exists>entity ecs'. newEntity (ECS_after_creates 3 :: int ECS) = Inr (entity, ecs') \<and>
      0 \<le> entity \<and> entity < MAX_ENTITIES \<and> entity \<notin> {0, 1, 2})"
proof -
  have r: "reach (Statics_init :: string Statics) (ECS_after_creates 512 :: int ECS) {0 ..< int 512}"
    by (rule reach_after_creates) (simp add: MAX_ENTITIES_def)
  have r3: "reach (Statics_init :: string Statics) (ECS_after_creates 3 :: int ECS) {0 ..< int 3}"
    by (rule reach_after_creates) (simp add: MAX_ENTITIES_def)
  have full: "{0 ..< int 512} = {0 ..< MAX_ENTITIES}" by (simp add: MAX_ENTITIES_def)
  have three: "{0 ..< int 3} = {0, 1, 2}" by auto
  have three_not_full: "{0, 1, 2} \<noteq> {0 ..< MAX_ENTITIES}"
  proof
    assume "{0, 1, 2} = {0 ..< MAX_ENTITIES}"
    moreover have "(3::int) \<in> {0 ..< MAX_ENTITIES}" by (simp add: MAX_ENTITIES_def)
    ultimately have "(3::int) \<in> {0, 1, 2}" by simp
    then show False by simp
  qed
  have seven: "(7::int) \<in> {0 ..< MAX_ENTITIES}" by (simp add: MAX_ENTITIES_def)
  from newEntity_exhausted_iff_all_live [OF r] full seven
  have a: "newEntity (ECS_after_creates 512 :: int ECS) = Inl (ECSException ''Out of available entities'')"
    and b: "\<exists>ecs'. destroyEntity (ECS_after_creates 512 :: int ECS) 7 = Inr ecs' \<and>
      (\<exists>entity' ecs''. newEntity ecs' = Inr (entity', ecs''))"
    by auto
  from newEntity_exhausted_iff_all_live [OF r3] three three_not_full
  have c: "\<exists>entity ecs'. newEntity (ECS_after_creates 3 :: int ECS) = Inr (entity, ecs') \<and>
      0 \<le> entity \<and> entity < MAX_ENTITIES \<and> entity \<notin> {0, 1, 2}"
    by auto
  from a b c show ?thesis by blast
qed

subsection \<open>Assigning and reading a component\<close>

lemma ComponentPool_get_after_add:
  "ComponentPool_get (ComponentPool_add p entity component) entity =
     Inr (Some (length (components p)), ComponentPool_add p entity component)"
  by (simp add: ComponentPool_get_def ComponentPool_add_def index_or_insert_def Let_def)

lemma components_after_add:
  "components (ComponentPool_add p entity component) ! length (components p) = component \<and>
   length (components p) < length (components (ComponentPool_add p entity component))"
  by (simp add: ComponentPool_add_def Let_def)

text \<open>
  Claim C8. In every state a run can reach, for a registered component type \<open>T\<close>, a live
  entity and any value: \<open>assignComponent<T>\<close> returns normally, the \<open>getComponent<T>\<close>
  that follows it returns a non-null pointer, and that pointer points to a component equal
  to the assigned value. (This holds whether or not the entity had a \<open>T\<close> before.)
\<close>

theorem assign_then_get:
  assumes "reach st ecs live" "entity \<in> live" "registered T st ecs"
  shows "\<exists>st' ecs' i st'' ecs''.
           assignComponent T entity component st ecs = Inr (st', ecs') \<and>
           getComponent T entity st' ecs' = Inr (Some i, st'', ecs'') \<and>
           pointee T st'' ecs'' i = Some component"
proof -
  from assms(1) have inv: "ECS_inv ecs live" by (rule reach_ECS_inv)
  let ?cm = "componentManager ecs"
  from assms(3) obtain tid p where
    tid: "template_id st T = Some tid" and inr: "in_poolArray ?cm tid"
    and p: "componentPoolArray ?cm ! nat tid = Some p"
    by (auto simp: registered_def split: option.splits)
  note q = getComponentTypeId_known [OF tid]
  from inr inv have bound: "0 \<le> tid" "tid < MAX_COMPONENTS"
    by (auto simp: in_poolArray_def ECS_inv_def)
  define p' where "p' = ComponentPool_add p entity component"
  define cm' where "cm' = set_pool ?cm (nat tid) p'"
  have pool: "getComponentPool T st ?cm = Inr (st, Some (nat tid, p))"
    using q inr p by (simp add: getComponentPool_def)
  have add: "ComponentManager_add T entity component st ?cm = Inr (st, cm')"
    using pool by (simp add: ComponentManager_add_def cm'_def p'_def)
  from assms(2) inv have ins: "in_signatures (entityManager ecs) entity"
    by (auto simp: in_signatures_def ECS_inv_def)
  define signature where
    "signature = set_bit (nat tid) (signatures (entityManager ecs) ! nat entity)"
  define em where
    "em = (entityManager ecs)\<lparr>signatures := (signatures (entityManager ecs))[nat entity := signature]\<rparr>"
  from inv have "0 + length (systems (systemManager ecs)) \<le> length (entitiesVec (systemManager ecs))"
    by (simp add: ECS_inv_def)
  from signatureChange_loop_total [OF this] obtain ev where
    ev: "signatureChange_loop (systems (systemManager ecs)) 0 (entitiesVec (systemManager ecs))
           entity signature = Inr ev"
    by blast
  define ecs' where
    "ecs' = \<lparr>entityManager = em, componentManager = cm',
             systemManager = (systemManager ecs)\<lparr>entitiesVec := ev\<rparr>\<rparr>"
  have assign: "assignComponent T entity component st ecs = Inr (st, ecs')"
    using add ins q bound ev
    by (simp add: assignComponent_def getSignature_def bitset_set_def setSignature_def
        onEntitySignatureChange_def signature_def em_def ecs'_def)
  have inr': "in_poolArray cm' tid"
    using inr by (simp add: in_poolArray_def cm'_def set_pool_def)
  have p'_at: "componentPoolArray cm' ! nat tid = Some p'"
    using inr by (simp add: in_poolArray_def cm'_def set_pool_def)
  have pool': "getComponentPool T st cm' = Inr (st, Some (nat tid, p'))"
    using q inr' p'_at by (simp add: getComponentPool_def)
  have same: "set_pool cm' (nat tid) p' = cm'"
    by (simp add: cm'_def set_pool_def)
  have get: "getComponent T entity st ecs' = Inr (Some (length (components p)), st, ecs')"
    using pool' same
    by (simp add: getComponent_def ComponentManager_get_def ecs'_def p'_def
        ComponentPool_get_after_add)
  have "pointee T st ecs' (length (components p)) = Some component"
    using tid inr' p'_at components_after_add [of p entity component]
    by (simp add: pointee_def ecs'_def p'_def)
  with assign get show ?thesis by blast
qed

theorem assign_then_get_witness:
  "\<exists>st ecs0 ecs. registerComponent ''Transform'' Statics_init (ECS_init :: int ECS) = Inr (st, ecs0) \<and>
     newEntity ecs0 = Inr (0, ecs) \<and>
     (\<exists>st' ecs' i st'' ecs''.
        assignComponent ''Transform'' 0 42 st ecs = Inr (st', ecs') \<and>
        getComponent ''Transform'' 0 st' ecs' = Inr (Some i, st'', ecs'') \<and>
        pointee ''Transform'' st'' ecs'' i = Some 42)"
proof -
  define st :: "string Statics" where
    "st = \<lparr>counter_id = 1, template_id = [''Transform'' \<mapsto> 0]\<rparr>"
  define cm :: "int ComponentManager" where
    "cm = set_pool ComponentManager_init 0 ComponentPool_init"
  define ecs0 :: "int ECS" where "ecs0 = ECS_init\<lparr>componentManager := cm\<rparr>"
  define ecs :: "int ECS" where
    "ecs = ecs0\<lparr>entityManager := EntityManager_init\<lparr>availableEntities := [1 .. MAX_ENTITIES - 1]\<rparr>\<rparr>"
  have reg: "registerComponent ''Transform'' Statics_init (ECS_init :: int ECS) = Inr (st, ecs0)"
    by (simp add: registerComponent_def ComponentManager_registerComponent_def
        getComponentTypeId_def getComponentTypeId_counter_def Statics_init_def in_poolArray_def
        ECS_init_def ComponentManager_init_def MAX_COMPONENTS_def st_def ecs0_def cm_def)
  have "[0 .. MAX_ENTITIES - 1] = 0 # [1 .. MAX_ENTITIES - 1]"
    by (simp add: upto_rec1 MAX_ENTITIES_def)
  then have new: "newEntity ecs0 = Inr (0, ecs)"
    by (simp add: newEntity_def createNew_def ecs0_def ecs_def ECS_init_def EntityManager_init_def)
  from reach_newEntity [OF reach_registerComponent [OF reach_init reg] new]
  have r: "reach st ecs {0}" .
  have "registered ''Transform'' st ecs"
    by (simp add: registered_def st_def ecs_def ecs0_def cm_def set_pool_def in_poolArray_def
        ComponentManager_init_def MAX_COMPONENTS_def)
  from assign_then_get [OF r _ this, of 0 42] reg new show ?thesis by blast
qed

subsection \<open>Component type ids\<close>

lemma getComponentTypeId_calls_append:
  "getComponentTypeId_calls (xs @ ys) st =
     (let (a, st') = getComponentTypeId_calls xs st;
          (b, st'') = getComponentTypeId_calls ys st'
      in (a @ b, st''))"
  by (induction xs arbitrary: st) (simp_all add: Let_def split: prod.splits)

lemma getComponentTypeId_calls_snoc:
  "getComponentTypeId_calls (Ts @ [T]) st =
     (let (tids, st') = getComponentTypeId_calls Ts st;
          (tid, st'') = getComponentTypeId T st'
      in (tids @ [tid], st''))"
  by (simp add: getComponentTypeId_calls_append Let_def split: prod.splits)

lemma ids_inv_init: "ids_inv [] [] Statics_init"
  by (simp add: ids_inv_def Statics_init_def)

lemma ids_inv_known:
  assumes inv: "ids_inv Ts tids st" and T: "T \<in> set Ts"
  shows "\<exists>tid. getComponentTypeId T st = (tid, st) \<and> ids_inv (Ts @ [T]) (tids @ [tid]) st"
proof -
  from inv T have "T \<in> dom (template_id st)" by (simp add: ids_inv_def)
  then obtain tid where tid: "template_id st T = Some tid" by auto
  then have q: "getComponentTypeId T st = (tid, st)" by (rule getComponentTypeId_known)
  from inv have len: "length tids = length Ts" by (simp add: ids_inv_def)
  have nth_last: "(tids @ [x]) ! length Ts = x" for x :: int
    using len [symmetric] by simp
  from T have s: "set (Ts @ [T]) = set Ts" by auto
  have a: "\<forall>i<length (Ts @ [T]). template_id st ((Ts @ [T]) ! i) = Some ((tids @ [tid]) ! i)"
  proof (intro allI impI)
    fix i assume that: "i < length (Ts @ [T])"
    show "template_id st ((Ts @ [T]) ! i) = Some ((tids @ [tid]) ! i)"
  proof (cases "i < length Ts")
    case True
    with inv len show ?thesis by (simp add: ids_inv_def nth_append)
  next
    case False
    with that have "i = length Ts" by simp
    with tid show ?thesis by (simp add: nth_last)
  qed
  qed
  have b: "\<forall>i<length (Ts @ [T]). (Ts @ [T]) ! i \<notin> set (take i (Ts @ [T])) \<longrightarrow>
      (tids @ [tid]) ! i = int (card (set (take i (Ts @ [T]))))"
  proof (intro allI impI)
    fix i assume that: "i < length (Ts @ [T])" "(Ts @ [T]) ! i \<notin> set (take i (Ts @ [T]))"
    show "(tids @ [tid]) ! i = int (card (set (take i (Ts @ [T]))))"
    proof (cases "i < length Ts")
      case True
      with that(2) inv len show ?thesis by (simp add: ids_inv_def nth_append)
    next
      case False
      with that(1) have "i = length Ts" by simp
      with that(2) T show ?thesis by simp
    qed
  qed
  note I = inv [unfolded ids_inv_def]
  from I s have c: "counter_id st = int (card (set (Ts @ [T])))" by simp
  from I s have d: "dom (template_id st) = set (Ts @ [T])" by simp
  from I have e: "\<forall>T tid. template_id st T = Some tid \<longrightarrow> tid < counter_id st"
    by (elim conjE)
  from I have f: "\<forall>T T' tid. template_id st T = Some tid \<and> template_id st T' = Some tid \<longrightarrow> T = T'"
    by (elim conjE)
  from len have l: "length (tids @ [tid]) = length (Ts @ [T])" by simp
  from l d c a e f b have "ids_inv (Ts @ [T]) (tids @ [tid]) st"
    unfolding ids_inv_def by (intro conjI)
  with q show ?thesis by blast
qed

lemma ids_inv_fresh:
  assumes inv: "ids_inv Ts tids st" and T: "T \<notin> set Ts"
  shows "\<exists>st'. getComponentTypeId T st = (int (card (set Ts)), st') \<and>
           ids_inv (Ts @ [T]) (tids @ [int (card (set Ts))]) st'"
proof -
  let ?tid = "int (card (set Ts))"
  define st' where "st' = st\<lparr>counter_id := counter_id st + 1, template_id := (template_id st)(T \<mapsto> ?tid)\<rparr>"
  from inv T have none: "template_id st T = None" by (auto simp: ids_inv_def)
  from inv have c: "counter_id st = ?tid" and len: "length tids = length Ts"
    by (simp_all add: ids_inv_def)
  have nth_last: "(tids @ [x]) ! length Ts = x" for x :: int
    using len [symmetric] by simp
  from none c have q: "getComponentTypeId T st = (?tid, st')"
    by (simp add: getComponentTypeId_def getComponentTypeId_counter_def st'_def)
  have i1: "length (tids @ [?tid]) = length (Ts @ [T])" using len by simp
  have i2: "dom (template_id st') = set (Ts @ [T])"
    using inv by (simp add: st'_def ids_inv_def)
  have i3: "counter_id st' = int (card (set (Ts @ [T])))"
    using T c by (simp add: st'_def)
  have i4: "template_id st' ((Ts @ [T]) ! i) = Some ((tids @ [?tid]) ! i)" if "i < length (Ts @ [T])" for i
  proof (cases "i < length Ts")
    case True
    then have "Ts ! i \<in> set Ts" by simp
    with T have "Ts ! i \<noteq> T" by auto
    with True inv len show ?thesis by (simp add: ids_inv_def nth_append st'_def)
  next
    case False
    with that have "i = length Ts" by simp
    then show ?thesis by (simp add: st'_def nth_last)
  qed
  have old: "tid < counter_id st" if "template_id st U = Some tid" for U tid
    using inv that by (auto simp: ids_inv_def)
  have i5: "tid < counter_id st'" if "template_id st' U = Some tid" for U tid
  proof (cases "U = T")
    case True
    with that c show ?thesis by (simp add: st'_def)
  next
    case False
    with that have "template_id st U = Some tid" by (simp add: st'_def)
    from old [OF this] show ?thesis by (simp add: st'_def)
  qed
  have i6: "U = U'" if "template_id st' U = Some tid" "template_id st' U' = Some tid" for U U' tid
  proof (cases "U = T"; cases "U' = T")
    assume "U = T" "U' = T" then show ?thesis by simp
  next
    assume "U = T" "U' \<noteq> T"
    with that c have "tid = counter_id st" "template_id st U' = Some tid" by (simp_all add: st'_def)
    with old [of U' tid] show ?thesis by simp
  next
    assume "U \<noteq> T" "U' = T"
    with that c have "tid = counter_id st" "template_id st U = Some tid" by (simp_all add: st'_def)
    with old [of U tid] show ?thesis by simp
  next
    assume "U \<noteq> T" "U' \<noteq> T"
    with that have "template_id st U = Some tid" "template_id st U' = Some tid" by (simp_all add: st'_def)
    with inv show ?thesis unfolding ids_inv_def by blast
  qed
  have i7: "(tids @ [?tid]) ! i = int (card (set (take i (Ts @ [T]))))"
    if "i < length (Ts @ [T])" "(Ts @ [T]) ! i \<notin> set (take i (Ts @ [T]))" for i
  proof (cases "i < length Ts")
    case True
    with that(2) inv len show ?thesis by (simp add: ids_inv_def nth_append)
  next
    case False
    with that(1) have "i = length Ts" by simp
    then show ?thesis by (simp add: nth_last)
  qed
  from i4 have i4': "\<forall>i<length (Ts @ [T]). template_id st' ((Ts @ [T]) ! i) = Some ((tids @ [?tid]) ! i)"
    by blast
  from i5 have i5': "\<forall>T tid. template_id st' T = Some tid \<longrightarrow> tid < counter_id st'"
    by blast
  from i6 have i6': "\<forall>T T' tid. template_id st' T = Some tid \<and> template_id st' T' = Some tid \<longrightarrow> T = T'"
    by blast
  from i7 have i7': "\<forall>i<length (Ts @ [T]). (Ts @ [T]) ! i \<notin> set (take i (Ts @ [T])) \<longrightarrow>
      (tids @ [?tid]) ! i = int (card (set (take i (Ts @ [T]))))"
    by blast
  from i1 i2 i3 i4' i5' i6' i7' have "ids_inv (Ts @ [T]) (tids @ [?tid]) st'"
    unfolding ids_inv_def by (intro conjI)
  with q show ?thesis by blast
qed

lemma getComponentTypeId_calls_inv:
  "getComponentTypeId_calls Ts Statics_init = (tids, st) \<Longrightarrow> ids_inv Ts tids st"
proof (induction Ts arbitrary: tids st rule: rev_induct)
  case Nil
  then show ?case by (simp add: ids_inv_init)
next
  case (snoc T Ts)
  obtain tids0 st0 where c0: "getComponentTypeId_calls Ts Statics_init = (tids0, st0)"
    by (cases "getComponentTypeId_calls Ts Statics_init")
  note inv0 = snoc.IH [OF c0]
  show ?case
  proof (cases "T \<in> set Ts")
    case True
    from ids_inv_known [OF inv0 True] obtain tid where
      "getComponentTypeId T st0 = (tid, st0)" "ids_inv (Ts @ [T]) (tids0 @ [tid]) st0" by blast
    with snoc.prems c0 show ?thesis by (simp add: getComponentTypeId_calls_snoc)
  next
    case False
    from ids_inv_fresh [OF inv0 False] obtain st' where
      "getComponentTypeId T st0 = (int (card (set Ts)), st')"
      "ids_inv (Ts @ [T]) (tids0 @ [int (card (set Ts))]) st'" by blast
    with snoc.prems c0 show ?thesis by (simp add: getComponentTypeId_calls_snoc)
  qed
qed

text \<open>
  Claim C10. Let any sequence of calls \<open>getComponentTypeId<T>()\<close> run on fresh statics.
  Two calls return the same id exactly when they name the same type. The first call for a
  type returns the number of distinct types queried before it, so the ids are
  \<open>0, 1, 2, ...\<close> in order of first query. The counter ends at the number of distinct
  types, whatever that number is: nothing compares it with \<open>MAX_COMPONENTS\<close>. A type
  that has been queried keeps its id: a later call returns it and changes nothing, and so
  \<open>registerComponent<T>\<close> uses the id of the first query, without any check.
\<close>

theorem component_type_ids:
  assumes "getComponentTypeId_calls Ts Statics_init = (tids, st)"
  shows "length tids = length Ts \<and>
         (\<forall>i j. i < length Ts \<and> j < length Ts \<longrightarrow> (tids ! i = tids ! j \<longleftrightarrow> Ts ! i = Ts ! j)) \<and>
         (\<forall>i. i < length Ts \<and> Ts ! i \<notin> set (take i Ts) \<longrightarrow>
              tids ! i = int (card (set (take i Ts)))) \<and>
         counter_id st = int (card (set Ts)) \<and>
         (\<forall>T cm. T \<in> set Ts \<longrightarrow>
            (\<exists>tid. template_id st T = Some tid \<and> getComponentTypeId T st = (tid, st) \<and>
               ComponentManager_registerComponent T st cm =
                 (if in_poolArray cm tid then Inr (st, set_pool cm (nat tid) ComponentPool_init)
                  else Inl UndefinedBehaviour)))"
proof -
  from assms have inv: "ids_inv Ts tids st" by (rule getComponentTypeId_calls_inv)
  have a: "tids ! i = tids ! j \<longleftrightarrow> Ts ! i = Ts ! j" if "i < length Ts" "j < length Ts" for i j
  proof -
    from inv that have "template_id st (Ts ! i) = Some (tids ! i)" "template_id st (Ts ! j) = Some (tids ! j)"
      by (simp_all add: ids_inv_def)
    moreover from inv have "\<And>T T' tid. template_id st T = Some tid \<Longrightarrow> template_id st T' = Some tid \<Longrightarrow> T = T'"
      unfolding ids_inv_def by blast
    ultimately show ?thesis by auto
  qed
  have e: "\<exists>tid. template_id st T = Some tid \<and> getComponentTypeId T st = (tid, st) \<and>
      ComponentManager_registerComponent T st cm =
        (if in_poolArray cm tid then Inr (st, set_pool cm (nat tid) ComponentPool_init)
         else Inl UndefinedBehaviour)" if "T \<in> set Ts" for T and cm :: "'v ComponentManager"
  proof -
    from inv that have "T \<in> dom (template_id st)" by (simp add: ids_inv_def)
    then obtain tid where tid: "template_id st T = Some tid" by auto
    then have "getComponentTypeId T st = (tid, st)" by (rule getComponentTypeId_known)
    with tid show ?thesis by (simp add: ComponentManager_registerComponent_def)
  qed
  from inv have "length tids = length Ts" "counter_id st = int (card (set Ts))"
    "\<forall>i. i < length Ts \<and> Ts ! i \<notin> set (take i Ts) \<longrightarrow> tids ! i = int (card (set (take i Ts)))"
    by (simp_all add: ids_inv_def)
  with a e show ?thesis by blast
qed

theorem component_type_ids_witness:
  "fst (getComponentTypeId_calls [''Transform'', ''Physic'', ''Transform'', ''Color''] Statics_init)
     = [0, 1, 0, 2] \<and>
   counter_id (snd (getComponentTypeId_calls [''Transform'', ''Physic'', ''Transform'', ''Color'']
     Statics_init)) = 3 \<and>
   MAX_COMPONENTS < counter_id (snd (getComponentTypeId_calls
     [''Transform'', ''Physic'', ''Transform'', ''Color''] Statics_init)) \<and>
   ComponentManager_registerComponent ''Color''
     (snd (getComponentTypeId_calls [''Transform'', ''Physic'', ''Transform'', ''Color''] Statics_init))
     (ComponentManager_init :: int ComponentManager) = Inl UndefinedBehaviour"
proof -
  let ?Ts = "[''Transform'', ''Physic'', ''Transform'', ''Color'']"
  define r where "r = getComponentTypeId_calls ?Ts Statics_init"
  have run: "getComponentTypeId_calls ?Ts Statics_init = (fst r, snd r)"
    unfolding r_def by (rule prod.collapse [symmetric])
  note facts = component_type_ids [OF run]
  note same = facts [THEN conjunct2, THEN conjunct1, rule_format]
  note first = facts [THEN conjunct2, THEN conjunct2, THEN conjunct1, rule_format]
  note count = facts [THEN conjunct2, THEN conjunct2, THEN conjunct2, THEN conjunct1]
  note known = facts [THEN conjunct2, THEN conjunct2, THEN conjunct2, THEN conjunct2, rule_format]
  from facts have "length (fst r) = length ?Ts" by (rule conjunct1)
  then have len: "length (fst r) = 4" by simp
  have t0: "fst r ! 0 = 0" using first [of 0] by simp
  have t1: "fst r ! 1 = 1" using first [of 1] by simp
  have t2: "fst r ! 2 = 0" using same [of 2 0] t0 by simp
  have "{''Transform'', ''Physic'', ''Transform''} = {''Transform'', ''Physic''}" by auto
  then have "card {''Transform'', ''Physic'', ''Transform''} = 2" by simp
  then have t3: "fst r ! 3 = 2" using first [of 3] by simp
  have ids: "fst r = [0, 1, 0, 2]"
  proof (rule nth_equalityI)
    show "length (fst r) = length [0, 1, 0, 2 :: int]" using len by simp
  next
    fix i assume "i < length (fst r)"
    with len have "i = 0 \<or> i = 1 \<or> i = 2 \<or> i = 3" by auto
    with t0 t1 t2 t3 show "fst r ! i = [0, 1, 0, 2] ! i" by auto
  qed
  have "{''Transform'', ''Physic'', ''Transform'', ''Color''} = {''Transform'', ''Physic'', ''Color''}"
    by auto
  then have "card {''Transform'', ''Physic'', ''Transform'', ''Color''} = 3" by simp
  with count have cnt: "counter_id (snd r) = 3" by simp
  have "''Color'' \<in> set ?Ts" by simp
  from known [OF this, of "ComponentManager_init :: int ComponentManager"]
  obtain tid where tid: "template_id (snd r) ''Color'' = Some tid"
    and reg: "ComponentManager_registerComponent ''Color'' (snd r) (ComponentManager_init :: int ComponentManager) =
           (if in_poolArray (ComponentManager_init :: int ComponentManager) tid
            then Inr (snd r, set_pool ComponentManager_init (nat tid) ComponentPool_init)
            else Inl UndefinedBehaviour)" by blast
  have "template_id (snd r) ''Color'' = Some 2"
    by (simp add: r_def getComponentTypeId_def getComponentTypeId_counter_def Statics_init_def)
  with tid have "tid = 2" by simp
  with reg have bad: "ComponentManager_registerComponent ''Color'' (snd r)
      (ComponentManager_init :: int ComponentManager) = Inl UndefinedBehaviour"
    by (simp add: in_poolArray_def ComponentManager_init_def MAX_COMPONENTS_def)
  from ids cnt bad show ?thesis
    unfolding r_def [symmetric] by (simp add: MAX_COMPONENTS_def)
qed

subsection \<open>The component store under removal\<close>

lemma store_consistent_init: "store_consistent ComponentPool_init"
  by (simp add: store_consistent_def ComponentPool_init_def)

text \<open>
  A fresh store is consistent, and \<open>add\<close> for an entity without an entry keeps a store
  consistent. \<open>remove\<close> always leaves the removed entity without an entry.
\<close>

lemma ComponentPool_add_consistent:
  assumes "store_consistent p" "entityToIndex p entity = None"
  shows "store_consistent (ComponentPool_add p entity component)"
proof -
  let ?n = "int (length (components p))"
  from assms(1) have inv: "\<And>e i. entityToIndex p e = Some i \<longleftrightarrow> indexToEntity p i = Some e"
    and dom: "dom (indexToEntity p) = {0 ..< ?n}"
    unfolding store_consistent_def by blast+
  from dom have free: "indexToEntity p ?n = None" by auto
  have e2i: "entityToIndex (ComponentPool_add p entity component) = (entityToIndex p)(entity \<mapsto> ?n)"
    and i2e: "indexToEntity (ComponentPool_add p entity component) = (indexToEntity p)(?n \<mapsto> entity)"
    and len: "int (length (components (ComponentPool_add p entity component))) = ?n + 1"
    by (simp_all add: ComponentPool_add_def Let_def)
  have a: "((entityToIndex p)(entity \<mapsto> ?n)) e = Some i \<longleftrightarrow> ((indexToEntity p)(?n \<mapsto> entity)) i = Some e" for e i
    using inv [of e i] assms(2) free by (cases "e = entity"; cases "i = ?n") auto
  have b: "dom ((indexToEntity p)(?n \<mapsto> entity)) = {0 ..< ?n + 1}"
    using dom by auto
  from a b show ?thesis unfolding store_consistent_def e2i i2e len by blast
qed

lemma ComponentPool_remove_erases: "entityToIndex (ComponentPool_remove p entity) entity = None"
  by (simp add: ComponentPool_remove_def Let_def split: prod.splits)

lemma ComponentPool_get_never_null: "ComponentPool_get p entity \<noteq> Inr (None, p')"
  by (simp add: ComponentPool_get_def split: prod.splits)

lemma registerComponent_no_exception: "registerComponent T st ecs \<noteq> Inl (ECSException m)"
  by (simp add: registerComponent_def ComponentManager_registerComponent_def andThen_def
      split: prod.splits sum.splits)

text \<open>
  Claim C4, at a failing input. \<open>remove\<close> erases \<open>indexToEntity\<close> at the position it has
  just filled instead of at the last position. After \<open>add(1, 10); add(0, 20); remove(1)\<close>
  the vector is \<open>[20]\<close> and entity 0 is at position 0, but position 0 has no entity and
  position 1, outside the vector, still has one: the maps are not inverse and the
  positions are not \<open>[0, 1)\<close>. After \<open>add(5, 10); add(6, 20); add(7, 30); remove(6);
  remove(5)\<close> entity 7, which still has its component, is mapped to position 1 of a
  vector of size 1, entity 0 has an entry it was never given, and \<open>get(7)\<close> reads outside
  the vector.
\<close>

theorem ComponentPool_remove_breaks_mapping:
  "components pool_two_then_remove_first = [20] \<and>
   entityToIndex pool_two_then_remove_first 0 = Some 0 \<and>
   indexToEntity pool_two_then_remove_first 0 = None \<and>
   indexToEntity pool_two_then_remove_first 1 = Some 0 \<and>
   \<not> store_consistent pool_two_then_remove_first \<and>
   components pool_three_then_remove_two = [30] \<and>
   entityToIndex pool_three_then_remove_two 7 = Some 1 \<and>
   entityToIndex pool_three_then_remove_two 0 = Some 0 \<and>
   ComponentPool_get pool_three_then_remove_two 7 = Inl UndefinedBehaviour"
proof -
  have a: "components pool_two_then_remove_first = [20]" by code_simp
  have b: "entityToIndex pool_two_then_remove_first 0 = Some 0" by code_simp
  have c: "indexToEntity pool_two_then_remove_first 0 = None" by code_simp
  have d: "indexToEntity pool_two_then_remove_first 1 = Some 0" by code_simp
  have e: "\<not> store_consistent pool_two_then_remove_first"
  proof
    assume "store_consistent pool_two_then_remove_first"
    then have "indexToEntity pool_two_then_remove_first 0 = Some 0"
      using b unfolding store_consistent_def by blast
    with c show False by simp
  qed
  have f: "components pool_three_then_remove_two = [30]" by code_simp
  have g: "entityToIndex pool_three_then_remove_two 7 = Some 1" by code_simp
  have h: "entityToIndex pool_three_then_remove_two 0 = Some 0" by code_simp
  have i: "ComponentPool_get pool_three_then_remove_two 7 = Inl UndefinedBehaviour"
    using f g by (simp add: ComponentPool_get_def index_or_insert_def)
  from a b c d e f g h i show ?thesis by blast
qed

text \<open>
  Claim C5, at a failing input. One type is registered, entities 0 and 1 are created and
  only entity 0 is given a component. \<open>removeComponent\<close> for entity 1, which has none,
  returns normally, and the store is then empty: the component of entity 0 is gone.
  \<open>entityToIndex[1]\<close> inserted the default position 0 and \<open>swapRemove\<close> removed what
  was there.
\<close>

theorem removeComponent_absent_modifies_store:
  "andThen (registerComponent ''Transform'' Statics_init (ECS_init :: int ECS)) (\<lambda>(st, ecs).
   andThen (newEntity ecs) (\<lambda>(a, ecs).
   andThen (newEntity ecs) (\<lambda>(b, ecs).
   andThen (assignComponent ''Transform'' a 10 st ecs) (\<lambda>(st, ecs).
   andThen (removeComponent ''Transform'' b st ecs) (\<lambda>(st, ecs).
     Inr (a, b, map (map_option components) (componentPoolArray (componentManager ecs))))))))
   = Inr (0, 1, [Some [], None])"
  by code_simp

subsection \<open>Reading a component that is absent\<close>

text \<open>
  Claim C2, at two failing inputs. With one type registered and a component \<open>10\<close> on
  entity 0 only, \<open>getComponent\<close> for entity 1 returns a non-null pointer, to position 0,
  where the component of entity 0 lives. After assigning to entity 0 and removing again,
  \<open>getComponent\<close> for entity 0 indexes the empty vector at 0. In neither case, and for no
  store and entity at all, does \<open>ComponentPool::get\<close> return \<open>nullptr\<close>.
\<close>

theorem getComponent_absent_not_null:
  "andThen (registerComponent ''Transform'' Statics_init (ECS_init :: int ECS)) (\<lambda>(st, ecs).
   andThen (newEntity ecs) (\<lambda>(a, ecs).
   andThen (newEntity ecs) (\<lambda>(b, ecs).
   andThen (assignComponent ''Transform'' a 10 st ecs) (\<lambda>(st, ecs).
   andThen (getComponent ''Transform'' b st ecs) (\<lambda>(ptr, st, ecs).
     Inr (a, b, ptr, map_option (pointee ''Transform'' st ecs) ptr))))))
   = Inr (0, 1, Some 0, Some (Some 10)) \<and>
   andThen (registerComponent ''Transform'' Statics_init (ECS_init :: int ECS)) (\<lambda>(st, ecs).
   andThen (newEntity ecs) (\<lambda>(a, ecs).
   andThen (assignComponent ''Transform'' a 10 st ecs) (\<lambda>(st, ecs).
   andThen (removeComponent ''Transform'' a st ecs) (\<lambda>(st, ecs).
   andThen (getComponent ''Transform'' a st ecs) (\<lambda>(ptr, st, ecs).
     Inr ptr)))))
   = Inl UndefinedBehaviour \<and>
   (\<forall>(p :: int ComponentPool) entity p'. ComponentPool_get p entity \<noteq> Inr (None, p'))"
proof -
  have a: "andThen (registerComponent ''Transform'' Statics_init (ECS_init :: int ECS)) (\<lambda>(st, ecs).
   andThen (newEntity ecs) (\<lambda>(a, ecs).
   andThen (newEntity ecs) (\<lambda>(b, ecs).
   andThen (assignComponent ''Transform'' a 10 st ecs) (\<lambda>(st, ecs).
   andThen (getComponent ''Transform'' b st ecs) (\<lambda>(ptr, st, ecs).
     Inr (a, b, ptr, map_option (pointee ''Transform'' st ecs) ptr))))))
   = Inr (0, 1, Some 0, Some (Some 10))"
    by code_simp
  have b: "andThen (registerComponent ''Transform'' Statics_init (ECS_init :: int ECS)) (\<lambda>(st, ecs).
   andThen (newEntity ecs) (\<lambda>(a, ecs).
   andThen (assignComponent ''Transform'' a 10 st ecs) (\<lambda>(st, ecs).
   andThen (removeComponent ''Transform'' a st ecs) (\<lambda>(st, ecs).
   andThen (getComponent ''Transform'' a st ecs) (\<lambda>(ptr, st, ecs).
     Inr ptr)))))
   = Inl UndefinedBehaviour"
    by code_simp
  from a b ComponentPool_get_never_null show ?thesis by blast
qed

subsection \<open>System membership\<close>

text \<open>
  Claim C1, at a failing input. One type (id 0) and one system requiring it are
  registered; entities 0 and 1 are created; entity 1 and then entity 0 are given the
  component, so the membership list is \<open>[1, 0]\<close>. Removing the component from entity 1
  calls \<open>swapRemove(members, 1)\<close>, which drops position 1, that is entity 0. Afterwards
  the list is \<open>[1]\<close> while the signatures are \<open>01\<close> for entity 0 and \<open>00\<close> for entity
  1: the member does not satisfy the requirement and the entity that does is not a member.
\<close>

theorem membership_wrong_after_removeComponent:
  "andThen (registerComponent ''Transform'' Statics_init (ECS_init :: int ECS)) (\<lambda>(st, ecs).
   andThen (newEntity (registerSystem ecs 1)) (\<lambda>(a, ecs).
   andThen (newEntity ecs) (\<lambda>(b, ecs).
   andThen (assignComponent ''Transform'' b 7 st ecs) (\<lambda>(st, ecs).
   andThen (assignComponent ''Transform'' a 5 st ecs) (\<lambda>(st, ecs).
   andThen (removeComponent ''Transform'' b st ecs) (\<lambda>(st, ecs).
     Inr (a, b, systems (systemManager ecs), entitiesVec (systemManager ecs),
          take 2 (signatures (entityManager ecs)))))))))
   = Inr (0, 1, [1], [[1]], [1, 0])"
  by code_simp

text \<open>
  What \<open>destroyEntity\<close> does achieve for a live entity: it returns normally, the
  signature of the entity is empty, its id is the last of the queue, and no pool has an
  \<open>entityToIndex\<close> entry for it.
\<close>

lemma destroyEntity_effects:
  assumes "reach st ecs live" "entity \<in> live"
  shows "\<exists>ecs'. destroyEntity ecs entity = Inr ecs' \<and>
           signatures (entityManager ecs') ! nat entity = 0 \<and>
           last (availableEntities (entityManager ecs')) = entity \<and>
           (\<forall>p \<in> set (componentPoolArray (componentManager ecs')).
              case p of None \<Rightarrow> True | Some q \<Rightarrow> entityToIndex q entity = None)"
proof -
  from assms(1) have inv: "ECS_inv ecs live" by (rule reach_ECS_inv)
  from assms(2) inv have ins: "in_signatures (entityManager ecs) entity"
    by (auto simp: in_signatures_def ECS_inv_def)
  from inv have "0 + length (systems (systemManager ecs)) \<le> length (entitiesVec (systemManager ecs))"
    by (simp add: ECS_inv_def)
  from entityDestroy_loop_total [OF this] obtain ev
    where ev: "entityDestroy_loop (systems (systemManager ecs)) 0 (entitiesVec (systemManager ecs)) entity = Inr ev"
    by blast
  define ecs' where "ecs' =
      \<lparr>entityManager = (entityManager ecs)\<lparr>availableEntities := availableEntities (entityManager ecs) @ [entity],
           signatures := (signatures (entityManager ecs))[nat entity := 0]\<rparr>,
        componentManager = ComponentManager_onEntityDestroy (componentManager ecs) entity,
        systemManager = (systemManager ecs)\<lparr>entitiesVec := ev\<rparr>\<rparr>"
  from ins ev have d: "destroyEntity ecs entity = Inr ecs'"
    by (simp add: destroyEntity_def destroy_def SystemManager_onEntityDestroy_def ecs'_def)
  from ins have s: "signatures (entityManager ecs') ! nat entity = 0"
    by (simp add: ecs'_def in_signatures_def)
  have q: "last (availableEntities (entityManager ecs')) = entity" by (simp add: ecs'_def)
  have c: "\<forall>p \<in> set (componentPoolArray (componentManager ecs')).
              case p of None \<Rightarrow> True | Some q \<Rightarrow> entityToIndex q entity = None"
    by (auto simp: ecs'_def ComponentManager_onEntityDestroy_def ComponentPool_remove_erases
        split: option.splits)
  from d s q c show ?thesis by blast
qed

text \<open>
  Claim C3, at a failing input. The same setup, followed by \<open>destroyEntity\<close> of entity
  1. The signature of entity 1 is reset, but the membership list is \<open>[1]\<close>: the
  destroyed entity is still a member and the live entity 0 has been dropped. The
  \<open>getComponent\<close> that follows for entity 1 returns a non-null pointer, to the component
  \<open>5\<close> of entity 0.
\<close>

theorem destroyEntity_keeps_member_and_pointer:
  "andThen (registerComponent ''Transform'' Statics_init (ECS_init :: int ECS)) (\<lambda>(st, ecs).
   andThen (newEntity (registerSystem ecs 1)) (\<lambda>(a, ecs).
   andThen (newEntity ecs) (\<lambda>(b, ecs).
   andThen (assignComponent ''Transform'' b 7 st ecs) (\<lambda>(st, ecs).
   andThen (assignComponent ''Transform'' a 5 st ecs) (\<lambda>(st, ecs).
   andThen (destroyEntity ecs b) (\<lambda>ecs.
   andThen (getComponent ''Transform'' b st ecs) (\<lambda>(ptr, st', ecs').
     Inr (a, b, entitiesVec (systemManager ecs), take 2 (signatures (entityManager ecs)),
          ptr, map_option (pointee ''Transform'' st' ecs') ptr))))))))
   = Inr (0, 1, [[1]], [1, 0], Some 0, Some (Some 5))"
  by code_simp

subsection \<open>Registering more types than slots\<close>

text \<open>
  Claim C6, at a failing input. On a fresh \<open>ECS\<close> the first two registrations succeed
  and fill both slots. The third distinct type gets id 2 and \<open>componentPoolArray[2]\<close> is
  written without a check, outside the array of \<open>MAX_COMPONENTS = 2\<close> slots. No call of
  \<open>registerComponent\<close> throws an \<open>ECSException\<close>.
\<close>

theorem registerComponent_third_type_out_of_bounds:
  "andThen (registerComponent ''Transform'' Statics_init (ECS_init :: int ECS)) (\<lambda>(st, ecs).
   andThen (registerComponent ''Physic'' st ecs) (\<lambda>(st, ecs).
     Inr (map (map_option components) (componentPoolArray (componentManager ecs)))))
   = Inr [Some [], Some []] \<and>
   andThen (registerComponent ''Transform'' Statics_init (ECS_init :: int ECS)) (\<lambda>(st, ecs).
   andThen (registerComponent ''Physic'' st ecs) (\<lambda>(st, ecs).
   andThen (registerComponent ''Color'' st ecs) (\<lambda>(st, ecs).
     Inr (map (map_option components) (componentPoolArray (componentManager ecs))))))
   = Inl UndefinedBehaviour \<and>
   (\<forall>(T :: string) st (ecs :: int ECS) m. registerComponent T st ecs \<noteq> Inl (ECSException m))"
proof -
  have a: "andThen (registerComponent ''Transform'' Statics_init (ECS_init :: int ECS)) (\<lambda>(st, ecs).
   andThen (registerComponent ''Physic'' st ecs) (\<lambda>(st, ecs).
     Inr (map (map_option components) (componentPoolArray (componentManager ecs)))))
   = Inr [Some [], Some []]"
    by code_simp
  have b: "andThen (registerComponent ''Transform'' Statics_init (ECS_init :: int ECS)) (\<lambda>(st, ecs).
   andThen (registerComponent ''Physic'' st ecs) (\<lambda>(st, ecs).
   andThen (registerComponent ''Color'' st ecs) (\<lambda>(st, ecs).
     Inr (map (map_option components) (componentPoolArray (componentManager ecs))))))
   = Inl UndefinedBehaviour"
    by code_simp
  from a b registerComponent_no_exception show ?thesis by blast
qed

end
